theory Spec2Isabelle
  imports Main "HOL-Library.AList" "HOL-Library.Char_ord" "HOL-Library.List_Lexorder"
begin

section \<open>Python values and errors\<close>

text \<open>
  The importer \<^verbatim>\<open>io_scene_vrm/importer/vrm_load.py\<close> works on the values that
  \<^verbatim>\<open>json.loads\<close> returns and on the numbers it unpacks from the binary payload.
  Both are values of one type: \<open>JObject\<close> is a \<^verbatim>\<open>dict\<close> with string keys in insertion
  order, \<open>JArray\<close> a \<^verbatim>\<open>list\<close>, \<open>JInt\<close> Python's unbounded \<^verbatim>\<open>int\<close>. Python's \<^verbatim>\<open>float\<close> is
  kept abstract as the type parameter \<open>'f\<close>: no theorem below depends on how floating
  point computes. A \<^verbatim>\<open>str\<close> is the list of the bytes of its UTF-8 encoding, and
  \<^verbatim>\<open>bytes\<close> is a list of bytes as well.
\<close>

datatype 'f json =
    JNull
  | JBool bool
  | JInt int
  | JFloat 'f
  | JString string
  | JArray "'f json list"
  | JObject "(string \<times> 'f json) list"

datatype pytype = TList | TDict | TBool | TStr | TNone | TInt | TFloat

datatype message =
    NoDerivatives string
  | CustomLicense
  | VRoidHubNoAlterations
  | UVLicenseRemarks
  | OtherWithoutUrl

text \<open>
  \<^verbatim>\<open>LicenseConfirmationRequiredProp\<close>: the message is a pair of an English and a Japanese
  text in the source; \<open>message\<close> names the pair (\<open>NoDerivatives\<close> carries the license
  name that the Japanese text interpolates).
\<close>

record LicenseConfirmationRequiredProp =
  url :: "string option"
  json_key :: "string option"
  message :: message

datatype pathseg = Idx nat | Key string

datatype error =
    KeyError
  | TypeError
  | IndexError
  | ValueError
  | AttributeError
  | OutOfBounds
  | DecodeError
  | UnsupportedDataType
  | HeaderSignatureNotFound string
  | UnsupportedVersion int
  | MultipleChunks
  | UnknownChunkType string
  | FailedToReadJsonChunk
  | InvalidJson
  | JSONDecodeError
  | UnsupportedPolygonType
  | UnexpectedType "pathseg list" pytype pytype
  | LicenseConfirmationRequired "LicenseConfirmationRequiredProp list"

text \<open>
  What the importer takes from Python's standard library and from floating point, as
  parameters of the model: \<^verbatim>\<open>json.loads\<close>, \<^verbatim>\<open>struct.unpack\<close> of a 32-bit float,
  \<^verbatim>\<open>urllib.parse.urlparse\<close> (\<open>None\<close> when it raises \<^verbatim>\<open>ValueError\<close>) and
  \<^verbatim>\<open>parse_qsl\<close>, \<^verbatim>\<open>str\<close> of a value that is not a string, \<^verbatim>\<open>float\<close> of a string
  compared with 1.16 (\<open>None\<close> when \<^verbatim>\<open>float\<close> raises \<^verbatim>\<open>ValueError\<close>), \<^verbatim>\<open>1 + v\<close> on a
  float, and the tolerance test \<^verbatim>\<open>math.fabs(float(l) - float(r)) > float_tolerance\<close>.
\<close>

record ParseResult =
  hostname :: "string option"
  path :: string
  query :: string
  geturl :: string

record 'f python =
  json_loads :: "string \<Rightarrow> error + 'f json"
  unpack_float :: "string \<Rightarrow> 'f"
  urlparse :: "string \<Rightarrow> ParseResult option"
  parse_qsl :: "string \<Rightarrow> (string \<times> string) list"
  repr :: "'f json \<Rightarrow> string"
  float_below_1_16 :: "string \<Rightarrow> bool option"
  float_add_one :: "'f \<Rightarrow> 'f"
  exceeds_tolerance :: "'f json \<Rightarrow> 'f json \<Rightarrow> 'f \<Rightarrow> bool"

subsection \<open>Subscripts, iteration and conversions of Python\<close>

text \<open>\<^verbatim>\<open>v[k]\<close> for a string literal \<open>k\<close>: only a dict has string subscripts.\<close>

definition py_getitem_str :: "'f json \<Rightarrow> string \<Rightarrow> error + 'f json" where
  "py_getitem_str v k =
     (case v of
        JObject kvs \<Rightarrow> (case map_of kvs k of None \<Rightarrow> Inl KeyError | Some x \<Rightarrow> Inr x)
      | _ \<Rightarrow> Inl TypeError)"

text \<open>\<^verbatim>\<open>k in v\<close> where \<open>v\<close> is a dict.\<close>

definition has_key :: "string \<Rightarrow> 'f json \<Rightarrow> bool" where
  "has_key k v = (case v of JObject kvs \<Rightarrow> map_of kvs k \<noteq> None | _ \<Rightarrow> False)"

text \<open>A value used as an index or a count: an \<^verbatim>\<open>int\<close>, or a \<^verbatim>\<open>bool\<close> (a subclass of it).\<close>

definition as_int :: "'f json \<Rightarrow> int option" where
  "as_int v =
     (case v of JInt n \<Rightarrow> Some n | JBool b \<Rightarrow> Some (if b then 1 else 0) | _ \<Rightarrow> None)"

text \<open>\<^verbatim>\<open>xs[i]\<close> on a list: a negative index counts from the end.\<close>

definition list_index :: "'a list \<Rightarrow> int \<Rightarrow> error + 'a" where
  "list_index xs i =
     (if 0 \<le> i \<and> i < int (length xs) then Inr (xs ! nat i)
      else if i < 0 \<and> - int (length xs) \<le> i then Inr (xs ! nat (int (length xs) + i))
      else Inl IndexError)"

text \<open>
  \<^verbatim>\<open>v[i]\<close> for a value \<open>i\<close>. A string subscripted by an integer gives a string of one
  character (one byte here; nothing of the importer reads it).
\<close>

definition py_getitem :: "'f json \<Rightarrow> 'f json \<Rightarrow> error + 'f json" where
  "py_getitem v i =
     (case v of
        JArray xs \<Rightarrow> (case as_int i of None \<Rightarrow> Inl TypeError | Some n \<Rightarrow> list_index xs n)
      | JObject kvs \<Rightarrow>
          (case i of
             JString k \<Rightarrow> (case map_of kvs k of None \<Rightarrow> Inl KeyError | Some x \<Rightarrow> Inr x)
           | JArray _ \<Rightarrow> Inl TypeError
           | JObject _ \<Rightarrow> Inl TypeError
           | _ \<Rightarrow> Inl KeyError)
      | JString s \<Rightarrow>
          (case as_int i of
             None \<Rightarrow> Inl TypeError
           | Some n \<Rightarrow> (case list_index s n of Inl e \<Rightarrow> Inl e | Inr c \<Rightarrow> Inr (JString [c])))
      | _ \<Rightarrow> Inl TypeError)"

text \<open>\<^verbatim>\<open>for x in v\<close>: the elements of a list, the keys of a dict, the characters of a string.\<close>

definition py_iter :: "'f json \<Rightarrow> error + 'f json list" where
  "py_iter v =
     (case v of
        JArray xs \<Rightarrow> Inr xs
      | JObject kvs \<Rightarrow> Inr (map (\<lambda>kv. JString (fst kv)) kvs)
      | JString s \<Rightarrow> Inr (map (\<lambda>c. JString [c]) s)
      | _ \<Rightarrow> Inl TypeError)"

text \<open>\<^verbatim>\<open>range(v)\<close>: the number of iterations; none for a negative count.\<close>

definition py_range :: "'f json \<Rightarrow> error + nat" where
  "py_range v = (case as_int v of None \<Rightarrow> Inl TypeError | Some n \<Rightarrow> Inr (nat n))"

section \<open>The binary reader\<close>

text \<open>
  Modelled from the spec: the class \<^verbatim>\<open>BinaryReader\<close> of
  \<^verbatim>\<open>io_scene_vrm/importer/binary_reader.py\<close> and the constants \<^verbatim>\<open>GlConstants\<close> are not
  among the source files. The spec (4.1 and 6) gives a cursor over an immutable byte
  buffer; reads of fixed-length text (failing when the bytes are not valid text), of
  byte slices and of scalars of the width the component type implies (signed and
  unsigned 8, 16 and 32-bit integers and 32-bit floats, little-endian); an absolute
  seek; and the failure of every read beyond the end of the buffer. The component
  types carry the numbers of the glTF format. A seek needs an integer offset.
\<close>

record BinaryReader =
  data :: string
  pos :: int

definition new_reader :: "string \<Rightarrow> BinaryReader" where
  "new_reader d = \<lparr>data = d, pos = 0\<rparr>"

definition set_pos :: "BinaryReader \<Rightarrow> 'f json \<Rightarrow> error + BinaryReader" where
  "set_pos br v = (case as_int v of None \<Rightarrow> Inl TypeError | Some p \<Rightarrow> Inr (br\<lparr>pos := p\<rparr>))"

definition read_binary :: "BinaryReader \<Rightarrow> nat \<Rightarrow> error + (string \<times> BinaryReader)" where
  "read_binary br n =
     (if 0 \<le> pos br \<and> pos br + int n \<le> int (length (data br))
      then Inr (take n (drop (nat (pos br)) (data br)), br\<lparr>pos := pos br + int n\<rparr>)
      else Inl OutOfBounds)"

text \<open>Valid UTF-8: no overlong form, no surrogate, nothing above U+10FFFF.\<close>

definition cont_byte :: "nat \<Rightarrow> bool" where
  "cont_byte b = (128 \<le> b \<and> b \<le> 191)"

fun utf8_valid :: "nat list \<Rightarrow> bool" where
  "utf8_valid [] = True"
| "utf8_valid (b # bs) =
     (if b < 128 then utf8_valid bs
      else if 194 \<le> b \<and> b \<le> 223 then
        (case bs of b1 # r \<Rightarrow> cont_byte b1 \<and> utf8_valid r | _ \<Rightarrow> False)
      else if 224 \<le> b \<and> b \<le> 239 then
        (case bs of
           b1 # b2 # r \<Rightarrow>
             (if b = 224 then 160 \<le> b1 \<and> b1 \<le> 191
              else if b = 237 then 128 \<le> b1 \<and> b1 \<le> 159
              else cont_byte b1) \<and> cont_byte b2 \<and> utf8_valid r
         | _ \<Rightarrow> False)
      else if 240 \<le> b \<and> b \<le> 244 then
        (case bs of
           b1 # b2 # b3 # r \<Rightarrow>
             (if b = 240 then 144 \<le> b1 \<and> b1 \<le> 191
              else if b = 244 then 128 \<le> b1 \<and> b1 \<le> 143
              else cont_byte b1) \<and> cont_byte b2 \<and> cont_byte b3 \<and> utf8_valid r
         | _ \<Rightarrow> False)
      else False)"

text \<open>\<^verbatim>\<open>bytes.decode("utf-8")\<close>: the text keeps the bytes of its encoding.\<close>

definition decode_utf8 :: "string \<Rightarrow> error + string" where
  "decode_utf8 bs = (if utf8_valid (map of_char bs) then Inr bs else Inl DecodeError)"

definition read_str :: "BinaryReader \<Rightarrow> nat \<Rightarrow> error + (string \<times> BinaryReader)" where
  "read_str br n =
     (case read_binary br n of
        Inl e \<Rightarrow> Inl e
      | Inr (bs, br') \<Rightarrow> (case decode_utf8 bs of Inl e \<Rightarrow> Inl e | Inr s \<Rightarrow> Inr (s, br')))"

text \<open>Little-endian unsigned and two's complement values of a byte string.\<close>

fun le_nat :: "string \<Rightarrow> nat" where
  "le_nat [] = 0"
| "le_nat (c # cs) = of_char c + 256 * le_nat cs"

definition le_signed :: "string \<Rightarrow> int" where
  "le_signed bs =
     (let v = int (le_nat bs); m = 2 ^ (8 * length bs)
      in if m \<le> 2 * v then v - m else v)"

definition read_unsigned_int :: "BinaryReader \<Rightarrow> error + (nat \<times> BinaryReader)" where
  "read_unsigned_int br =
     (case read_binary br 4 of Inl e \<Rightarrow> Inl e | Inr (bs, br') \<Rightarrow> Inr (le_nat bs, br'))"

definition GL_BYTE :: int where "GL_BYTE = 5120"
definition GL_UNSIGNED_BYTE :: int where "GL_UNSIGNED_BYTE = 5121"
definition GL_SHORT :: int where "GL_SHORT = 5122"
definition GL_UNSIGNED_SHORT :: int where "GL_UNSIGNED_SHORT = 5123"
definition GL_INT :: int where "GL_INT = 5124"
definition GL_UNSIGNED_INT :: int where "GL_UNSIGNED_INT = 5125"
definition GL_FLOAT :: int where "GL_FLOAT = 5126"
definition GL_TRIANGLES :: int where "GL_TRIANGLES = 4"

definition read_signed :: "BinaryReader \<Rightarrow> nat \<Rightarrow> error + ('f json \<times> BinaryReader)" where
  "read_signed br n =
     (case read_binary br n of
        Inl e \<Rightarrow> Inl e
      | Inr (bs, br') \<Rightarrow> Inr (JInt (le_signed bs), br'))"

definition read_unsigned :: "BinaryReader \<Rightarrow> nat \<Rightarrow> error + ('f json \<times> BinaryReader)" where
  "read_unsigned br n =
     (case read_binary br n of
        Inl e \<Rightarrow> Inl e
      | Inr (bs, br') \<Rightarrow> Inr (JInt (int (le_nat bs)), br'))"

definition read_as_data_type ::
  "'f python \<Rightarrow> BinaryReader \<Rightarrow> 'f json \<Rightarrow> error + ('f json \<times> BinaryReader)" where
  "read_as_data_type py br data_type =
     (case data_type of
        JInt t \<Rightarrow>
          (if t = GL_UNSIGNED_INT then read_unsigned br 4
           else if t = GL_INT then read_signed br 4
           else if t = GL_UNSIGNED_SHORT then read_unsigned br 2
           else if t = GL_SHORT then read_signed br 2
           else if t = GL_FLOAT then
             (case read_binary br 4 of
                Inl e \<Rightarrow> Inl e
              | Inr (bs, br') \<Rightarrow> Inr (JFloat (unpack_float py bs), br'))
           else if t = GL_UNSIGNED_BYTE then read_unsigned br 1
           else if t = GL_BYTE then read_signed br 1
           else Inl UnsupportedDataType)
      | _ \<Rightarrow> Inl UnsupportedDataType)"

section \<open>The typed accessor decoder\<close>

definition type_num_dict :: "(string \<times> nat) list" where
  "type_num_dict =
     [(''SCALAR'', 1), (''VEC2'', 2), (''VEC3'', 3), (''VEC4'', 4), (''MAT4'', 16)]"

text \<open>
  \<^verbatim>\<open>type_num_dict[accessor["type"]]\<close>: a key that is not a string is not in the dict
  (\<^verbatim>\<open>KeyError\<close>), and a list or a dict is not hashable (\<^verbatim>\<open>TypeError\<close>).
\<close>

definition lookup_type_num :: "'f json \<Rightarrow> error + nat" where
  "lookup_type_num t =
     (case t of
        JString s \<Rightarrow> (case map_of type_num_dict s of None \<Rightarrow> Inl KeyError | Some n \<Rightarrow> Inr n)
      | JArray _ \<Rightarrow> Inl TypeError
      | JObject _ \<Rightarrow> Inl TypeError
      | _ \<Rightarrow> Inl KeyError)"

text \<open>
  The innermost loop, \<^verbatim>\<open>for _ in range(type_num): data.append(br.read_as_data_type(
  accessor["componentType"]))\<close>, with \<open>n\<close> iterations left.
\<close>

fun read_components ::
  "'f python \<Rightarrow> BinaryReader \<Rightarrow> 'f json \<Rightarrow> nat \<Rightarrow> 'f json list \<Rightarrow>
   error + ('f json list \<times> BinaryReader)" where
  "read_components py br accessor 0 data_acc = Inr (data_acc, br)"
| "read_components py br accessor (Suc n) data_acc =
     (case py_getitem_str accessor ''componentType'' of
        Inl e \<Rightarrow> Inl e
      | Inr ct \<Rightarrow>
          (case read_as_data_type py br ct of
             Inl e \<Rightarrow> Inl e
           | Inr (v, br') \<Rightarrow> read_components py br' accessor n (data_acc @ [v])))"

text \<open>The loop \<^verbatim>\<open>for _ in range(accessor["count"])\<close>, with \<open>n\<close> iterations left.\<close>

fun read_elements ::
  "'f python \<Rightarrow> BinaryReader \<Rightarrow> 'f json \<Rightarrow> nat \<Rightarrow> nat \<Rightarrow> 'f json list \<Rightarrow>
   error + ('f json list \<times> BinaryReader)" where
  "read_elements py br accessor type_num 0 data_list = Inr (data_list, br)"
| "read_elements py br accessor type_num (Suc n) data_list =
     (if type_num = 1 then
        (case py_getitem_str accessor ''componentType'' of
           Inl e \<Rightarrow> Inl e
         | Inr ct \<Rightarrow>
             (case read_as_data_type py br ct of
                Inl e \<Rightarrow> Inl e
              | Inr (v, br') \<Rightarrow> read_elements py br' accessor type_num n (data_list @ [v])))
      else
        (case read_components py br accessor type_num [] of
           Inl e \<Rightarrow> Inl e
         | Inr (d, br') \<Rightarrow>
             read_elements py br' accessor type_num n (data_list @ [JArray d])))"

text \<open>The body of the loop over the accessors: the array decoded for one accessor.\<close>

definition decode_accessor ::
  "'f python \<Rightarrow> BinaryReader \<Rightarrow> 'f json \<Rightarrow> 'f json \<Rightarrow> error + ('f json \<times> BinaryReader)" where
  "decode_accessor py br buffer_views accessor =
     (case py_getitem_str accessor ''type'' of
        Inl e \<Rightarrow> Inl e
      | Inr t \<Rightarrow>
     (case lookup_type_num t of
        Inl e \<Rightarrow> Inl e
      | Inr type_num \<Rightarrow>
     (if \<not> has_key ''bufferView'' accessor then Inr (JArray [], br)
      else
     (case py_getitem_str accessor ''bufferView'' of
        Inl e \<Rightarrow> Inl e
      | Inr bv \<Rightarrow>
     (case py_getitem buffer_views bv of
        Inl e \<Rightarrow> Inl e
      | Inr view \<Rightarrow>
     (case py_getitem_str view ''byteOffset'' of
        Inl e \<Rightarrow> Inl e
      | Inr off \<Rightarrow>
     (case set_pos br off of
        Inl e \<Rightarrow> Inl e
      | Inr br1 \<Rightarrow>
     (case py_getitem_str accessor ''count'' of
        Inl e \<Rightarrow> Inl e
      | Inr c \<Rightarrow>
     (case py_range c of
        Inl e \<Rightarrow> Inl e
      | Inr n \<Rightarrow>
     (case read_elements py br1 accessor type_num n [] of
        Inl e \<Rightarrow> Inl e
      | Inr (data_list, br2) \<Rightarrow> Inr (JArray data_list, br2)))))))))))"

fun decode_accessors ::
  "'f python \<Rightarrow> BinaryReader \<Rightarrow> 'f json \<Rightarrow> 'f json list \<Rightarrow> 'f json list \<Rightarrow>
   error + 'f json list" where
  "decode_accessors py br buffer_views [] decoded_binary = Inr decoded_binary"
| "decode_accessors py br buffer_views (accessor # rest) decoded_binary =
     (case decode_accessor py br buffer_views accessor of
        Inl e \<Rightarrow> Inl e
      | Inr (arr, br') \<Rightarrow>
          decode_accessors py br' buffer_views rest (decoded_binary @ [arr]))"

definition decode_bin :: "'f python \<Rightarrow> 'f json \<Rightarrow> string \<Rightarrow> error + 'f json list" where
  "decode_bin py json_data binary =
     (let br = new_reader binary in
      case py_getitem_str json_data ''bufferViews'' of
        Inl e \<Rightarrow> Inl e
      | Inr buffer_views \<Rightarrow>
     (case py_getitem_str json_data ''accessors'' of
        Inl e \<Rightarrow> Inl e
      | Inr accessors \<Rightarrow>
     (case py_iter accessors of
        Inl e \<Rightarrow> Inl e
      | Inr accs \<Rightarrow> decode_accessors py br buffer_views accs [])))"

text \<open>
  What the claims about the decoder speak of: the arity and the declared count of an
  accessor, the number of scalars in a decoded array once flattened, and the array
  that an accessor decodes to on its own, from a fresh reader over the payload.
\<close>

definition arity :: "'f json \<Rightarrow> nat option" where
  "arity accessor =
     (case py_getitem_str accessor ''type'' of
        Inr (JString s) \<Rightarrow> map_of type_num_dict s
      | _ \<Rightarrow> None)"


definition elem_count :: "'f json \<Rightarrow> nat" where
  "elem_count v = (case v of JArray ys \<Rightarrow> length ys | _ \<Rightarrow> 1)"


definition decode_one ::
  "'f python \<Rightarrow> string \<Rightarrow> 'f json \<Rightarrow> 'f json \<Rightarrow> error + 'f json" where
  "decode_one py binary buffer_views accessor =
     (case decode_accessor py (new_reader binary) buffer_views accessor of
        Inl e \<Rightarrow> Inl e
      | Inr (arr, _) \<Rightarrow> Inr arr)"

section \<open>The container demuxer\<close>

text \<open>
  The loop \<^verbatim>\<open>while size > 0\<close> of \<^verbatim>\<open>parse_glb\<close>. Every iteration reads the length
  and the tag of a chunk and its payload and takes at least 8 from \<open>size\<close>.
\<close>

function parse_chunks ::
  "BinaryReader \<Rightarrow> int \<Rightarrow> string option \<Rightarrow> string option \<Rightarrow>
   error + (string option \<times> string option)" where
  "parse_chunks reader sz json_str body =
     (if sz > 0 then
        (if json_str \<noteq> None \<and> body \<noteq> None then Inl MultipleChunks
         else
           (case read_unsigned_int reader of
              Inl e \<Rightarrow> Inl e
            | Inr (chunk_size, r1) \<Rightarrow>
           (case read_str r1 4 of
              Inl e \<Rightarrow> Inl e
            | Inr (chunk_type, r2) \<Rightarrow>
           (case read_binary r2 chunk_size of
              Inl e \<Rightarrow> Inl e
            | Inr (chunk_data, r3) \<Rightarrow>
                (if chunk_type = ''BIN'' @ [CHR 0x00] then
                   parse_chunks r3 (sz - 4 - 4 - int chunk_size) json_str (Some chunk_data)
                 else if chunk_type = ''JSON'' then
                   (case decode_utf8 chunk_data of
                      Inl e \<Rightarrow> Inl e
                    | Inr s \<Rightarrow>
                        parse_chunks r3 (sz - 4 - 4 - int chunk_size) (Some s) body)
                 else Inl (UnknownChunkType chunk_type))))))
      else Inr (json_str, body))"
  by pat_completeness auto
termination
  by (relation "measure (\<lambda>(reader, sz, json_str, body). nat sz)") auto

definition is_dict :: "'f json \<Rightarrow> bool" where
  "is_dict v = (case v of JObject _ \<Rightarrow> True | _ \<Rightarrow> False)"

text \<open>
  The statements of \<^verbatim>\<open>parse_glb\<close> after the loop (lines 110-116): \<^verbatim>\<open>not json_str\<close>
  holds of \<^verbatim>\<open>None\<close> and of the empty string, and \<^verbatim>\<open>body if body else bytes()\<close> is
  the body, empty when there is none.
\<close>

definition finish_glb ::
  "'f python \<Rightarrow> string option \<Rightarrow> string option \<Rightarrow> error + ('f json \<times> string)" where
  "finish_glb py json_str body =
     (case json_str of
        None \<Rightarrow> Inl FailedToReadJsonChunk
      | Some js \<Rightarrow>
     (if js = [] then Inl FailedToReadJsonChunk
      else
     (case json_loads py js of
        Inl e \<Rightarrow> Inl e
      | Inr json_obj \<Rightarrow>
     (if \<not> is_dict json_obj then Inl InvalidJson
      else Inr (json_obj, case body of None \<Rightarrow> [] | Some b \<Rightarrow> b)))))"

definition parse_glb :: "'f python \<Rightarrow> string \<Rightarrow> error + ('f json \<times> string)" where
  "parse_glb py bytes =
     (let reader = new_reader bytes in
      case read_str reader 4 of
        Inl e \<Rightarrow> Inl e
      | Inr (magic, r1) \<Rightarrow>
     (if magic \<noteq> ''glTF'' then Inl (HeaderSignatureNotFound magic)
      else
     (case read_as_data_type py r1 (JInt GL_UNSIGNED_INT) of
        Inl e \<Rightarrow> Inl e
      | Inr (version, r2) \<Rightarrow>
     (if version \<noteq> JInt 2 then
        Inl (UnsupportedVersion (case as_int version of Some v \<Rightarrow> v | None \<Rightarrow> 0))
      else
     (case read_as_data_type py r2 (JInt GL_UNSIGNED_INT) of
        Inl e \<Rightarrow> Inl e
      | Inr (declared, r3) \<Rightarrow>
     (case as_int declared of
        None \<Rightarrow> Inl TypeError
      | Some sz \<Rightarrow>
     (case parse_chunks r3 (sz - 12) None None of
        Inl e \<Rightarrow> Inl e
      | Inr (json_str, body) \<Rightarrow> finish_glb py json_str body)))))))"

definition create_vrm_dict :: "'f python \<Rightarrow> string \<Rightarrow> error + 'f json" where
  "create_vrm_dict py bytes =
     (case parse_glb py bytes of
        Inl e \<Rightarrow> Inl e
      | Inr (vrm_json, binary_chunk) \<Rightarrow>
     (case decode_bin py vrm_json binary_chunk of
        Inl e \<Rightarrow> Inl e
      | Inr decoded \<Rightarrow>
          (case vrm_json of
             JObject kvs \<Rightarrow>
               Inr (JObject (AList.update ''~accessors_decoded'' (JArray decoded) kvs))
           | _ \<Rightarrow> Inl TypeError)))"

subsection \<open>The container format\<close>

text \<open>
  The bytes of a container as the spec (6) lays them out: the magic tag, the version 2
  and the total length as little-endian 32-bit numbers, then the chunks, each its
  length, its tag of four bytes and its payload.
\<close>

definition le32 :: "nat \<Rightarrow> string" where
  "le32 n = [char_of n, char_of (n div 256), char_of (n div 65536), char_of (n div 16777216)]"

definition chunk :: "string \<Rightarrow> string \<Rightarrow> string" where
  "chunk tag payload = le32 (length payload) @ tag @ payload"

definition glb :: "string list \<Rightarrow> string" where
  "glb chunks = ''glTF'' @ le32 2 @ le32 (12 + length (concat chunks)) @ concat chunks"

definition BIN :: string where
  "BIN = ''BIN'' @ [CHR 0x00]"

definition header :: "nat \<Rightarrow> string" where
  "header n = ''glTF'' @ le32 2 @ le32 (12 + n)"

text \<open>
  What the loop of \<^verbatim>\<open>parse_glb\<close> does, seen on the list of the chunks (tag and
  payload) of a container rather than on its bytes.
\<close>

fun walk_chunks ::
  "(string \<times> string) list \<Rightarrow> string option \<Rightarrow> string option \<Rightarrow>
   error + (string option \<times> string option)" where
  "walk_chunks [] json_str body = Inr (json_str, body)"
| "walk_chunks ((tag, payload) # cs) json_str body =
     (if json_str \<noteq> None \<and> body \<noteq> None then Inl MultipleChunks
      else if tag = BIN then walk_chunks cs json_str (Some payload)
      else if tag = ''JSON'' then
        (case decode_utf8 payload of
           Inl e \<Rightarrow> Inl e
         | Inr s \<Rightarrow> walk_chunks cs (Some s) body)
      else Inl (UnknownChunkType tag))"

definition encode_chunks :: "(string \<times> string) list \<Rightarrow> string list" where
  "encode_chunks cs = map (\<lambda>c. chunk (fst c) (snd c)) cs"

definition wf_chunk :: "string \<times> string \<Rightarrow> bool" where
  "wf_chunk c = (length (fst c) = 4 \<and> decode_utf8 (fst c) = Inr (fst c) \<and> length (snd c) < 2 ^ 32)"

section \<open>The license gate\<close>

text \<open>
  Modelled from the spec: \<^verbatim>\<open>nested_json_value_getter\<close> of \<^verbatim>\<open>vrm_types\<close> is not among the
  source files. The spec (9) gives a path lookup that returns the default when a
  segment of the path is absent or the value there is of the wrong kind, and never
  raises. The importer passes paths of dict keys only.
\<close>

fun json_get :: "'f json \<Rightarrow> string list \<Rightarrow> 'f json \<Rightarrow> 'f json" where
  "json_get v [] dflt = v"
| "json_get v (k # ks) dflt =
     (case v of
        JObject kvs \<Rightarrow>
          (case map_of kvs k of None \<Rightarrow> dflt | Some x \<Rightarrow> json_get x ks dflt)
      | _ \<Rightarrow> dflt)"

text \<open>\<^verbatim>\<open>str(v)\<close>: a string is itself.\<close>

definition py_str :: "'f python \<Rightarrow> 'f json \<Rightarrow> string" where
  "py_str py v = (case v of JString s \<Rightarrow> s | _ \<Rightarrow> repr py v)"

text \<open>
  \<^verbatim>\<open>re.match\<close> for the patterns of the importer: a pattern is a sequence of literal
  characters and of \<^verbatim>\<open>.*\<close> (any characters but a newline), matched from the start of
  the string; what follows the match is free. A group changes nothing in whether the
  pattern matches. No flag is passed, so a literal matches its own case only.
\<close>

datatype rx = Lit char | DotStar

fun re_match :: "rx list \<Rightarrow> string \<Rightarrow> bool" where
  "re_match [] s = True"
| "re_match (Lit c # r) [] = False"
| "re_match (Lit c # r) (x # xs) = (x = c \<and> re_match r xs)"
| "re_match (DotStar # r) [] = re_match r []"
| "re_match (DotStar # r) (x # xs) =
     (re_match r (x # xs) \<or> (x \<noteq> CHR 0x0A \<and> re_match (DotStar # r) xs))"

definition cc_nd_pattern :: "rx list" where
  "cc_nd_pattern = map Lit ''CC'' @ [DotStar] @ map Lit ''ND'' @ [DotStar]"

definition unigltf_pattern :: "rx list" where
  "unigltf_pattern = map Lit ''UniGLTF''"

definition endswith :: "string \<Rightarrow> string \<Rightarrow> bool" where
  "endswith s suffix =
     (length suffix \<le> length s \<and> drop (length s - length suffix) s = suffix)"

text \<open>\<^verbatim>\<open>dict(pairs)\<close>: a later pair replaces an earlier one with the same key.\<close>

definition py_dict :: "(string \<times> string) list \<Rightarrow> string \<Rightarrow> string option" where
  "py_dict pairs = map_of (rev pairs)"

type_synonym props = "LicenseConfirmationRequiredProp list"

definition validate_vroid_hub_license_url ::
  "ParseResult \<Rightarrow> (string \<Rightarrow> string option) \<Rightarrow> string \<Rightarrow> props \<Rightarrow> bool \<times> props" where
  "validate_vroid_hub_license_url u query_dict key ps =
     (if hostname u \<noteq> Some ''hub.vroid.com'' \<or> \<not> endswith (path u) ''/license''
      then (False, ps)
      else if query_dict ''modification'' = Some ''disallow''
      then (True, ps @ [\<lparr>url = Some (geturl u), json_key = Some key,
                          message = VRoidHubNoAlterations\<rparr>])
      else (True, ps))"

definition validate_uni_virtual_license_url ::
  "ParseResult \<Rightarrow> (string \<Rightarrow> string option) \<Rightarrow> string \<Rightarrow> props \<Rightarrow> bool \<times> props" where
  "validate_uni_virtual_license_url u query_dict key ps =
     (if hostname u \<noteq> Some ''uv-license.com'' \<or> \<not> endswith (path u) ''/license''
      then (False, ps)
      else if query_dict ''remarks'' = Some ''true''
      then (True, ps @ [\<lparr>url = Some (geturl u), json_key = Some key,
                          message = UVLicenseRemarks\<rparr>])
      else (True, ps))"

definition validate_license_url :: "'f python \<Rightarrow> string \<Rightarrow> string \<Rightarrow> props \<Rightarrow> props" where
  "validate_license_url py url_str key ps =
     (if url_str = [] then ps
      else
        (case urlparse py url_str of
           None \<Rightarrow> ps @ [\<lparr>url = Some url_str, json_key = Some key, message = CustomLicense\<rparr>]
         | Some u \<Rightarrow>
             (let query_dict = py_dict (parse_qsl py (query u));
                  (a, ps1) = validate_vroid_hub_license_url u query_dict key ps
              in if a then ps1
                 else
                   (let (b, ps2) = validate_uni_virtual_license_url u query_dict key ps1
                    in if b then ps2
                       else ps2 @ [\<lparr>url = Some url_str, json_key = Some key,
                                      message = CustomLicense\<rparr>]))))"

definition meta_field :: "'f python \<Rightarrow> 'f json \<Rightarrow> string \<Rightarrow> string" where
  "meta_field py j field =
     py_str py (json_get j [''extensions'', ''VRM'', ''meta'', field] (JString []))"

text \<open>The three checks of \<^verbatim>\<open>validate_license\<close> in their order (lines 218-229, 231-239, 241-259).\<close>

definition check_license_name :: "string \<Rightarrow> props \<Rightarrow> props" where
  "check_license_name license_name confirmations =
     (if re_match cc_nd_pattern license_name
      then confirmations @ [\<lparr>url = None, json_key = None,
                               message = NoDerivatives license_name\<rparr>]
      else confirmations)"

definition check_other_license :: "'f python \<Rightarrow> 'f json \<Rightarrow> string \<Rightarrow> props \<Rightarrow> props" where
  "check_other_license py j license_name confirmations =
     (if license_name = ''Other'' then
        (let other_license_url_str = meta_field py j ''otherLicenseUrl''
         in if other_license_url_str = []
            then confirmations @ [\<lparr>url = None, json_key = None, message = OtherWithoutUrl\<rparr>]
            else validate_license_url py other_license_url_str ''otherLicenseUrl'' confirmations)
      else confirmations)"

definition license_confirmations :: "'f python \<Rightarrow> 'f json \<Rightarrow> props" where
  "license_confirmations py j =
     (let license_name = meta_field py j ''licenseName'';
          c1 = check_license_name license_name [];
          c2 = validate_license_url py (meta_field py j ''otherPermissionUrl'')
                 ''otherPermissionUrl'' c1
      in check_other_license py j license_name c2)"

definition validate_license :: "'f python \<Rightarrow> 'f json \<Rightarrow> error + unit" where
  "validate_license py j =
     (let confirmations = license_confirmations py j
      in if confirmations \<noteq> [] then Inl (LicenseConfirmationRequired confirmations)
         else Inr ())"

section \<open>A runtime for the examples\<close>

text \<open>
  The examples below run the importer with this stand-in for the library: it loads
  the JSON text \<^verbatim>\<open>{}\<close> only, splits a URL of the form
  \<^verbatim>\<open>scheme://host/path?query#fragment\<close> and a query of the form \<^verbatim>\<open>k=v&k=v\<close>, reads a
  decimal literal without exponent, and has the integers for floats (floating point
  is exact on small integers).
\<close>

definition split_at :: "char \<Rightarrow> string \<Rightarrow> string \<times> string" where
  "split_at c s = (takeWhile (\<lambda>x. x \<noteq> c) s, drop 1 (dropWhile (\<lambda>x. x \<noteq> c) s))"

fun split_on :: "char \<Rightarrow> string \<Rightarrow> string list" where
  "split_on c [] = [[]]"
| "split_on c (x # xs) =
     (if x = c then [] # split_on c xs
      else (case split_on c xs of w # ws \<Rightarrow> (x # w) # ws | [] \<Rightarrow> [[x]]))"

definition sample_urlparse :: "string \<Rightarrow> ParseResult option" where
  "sample_urlparse u =
     (let front = fst (split_at (CHR ''?'') (fst (split_at (CHR ''#'') u)));
          q = snd (split_at (CHR ''?'') (fst (split_at (CHR ''#'') u)));
          after_scheme = dropWhile (\<lambda>x. x \<noteq> CHR '':'') front;
          rest = drop 3 after_scheme;
          host = takeWhile (\<lambda>x. x \<noteq> CHR ''/'') rest
      in if take 3 after_scheme = ''://''
         then Some \<lparr>hostname = (if host = [] then None else Some host),
                     path = dropWhile (\<lambda>x. x \<noteq> CHR ''/'') rest, query = q, geturl = u\<rparr>
         else Some \<lparr>hostname = None, path = front, query = q, geturl = u\<rparr>)"

definition sample_parse_qsl :: "string \<Rightarrow> (string \<times> string) list" where
  "sample_parse_qsl q =
     filter (\<lambda>kv. snd kv \<noteq> [])
       (map (split_at (CHR ''=''))
         (filter (\<lambda>field. CHR ''='' \<in> set field) (split_on (CHR ''&'') q)))"

definition is_digit :: "char \<Rightarrow> bool" where
  "is_digit c = (48 \<le> (of_char c :: nat) \<and> (of_char c :: nat) \<le> 57)"

definition decimal :: "string \<Rightarrow> nat" where
  "decimal ds = foldl (\<lambda>a c. 10 * a + (of_char c - 48)) 0 ds"

definition sample_float_below_1_16 :: "string \<Rightarrow> bool option" where
  "sample_float_below_1_16 s =
     (let neg = (take 1 s = ''-'');
          body = (if neg then drop 1 s else s);
          ip = fst (split_at (CHR ''.'') body);
          fp = snd (split_at (CHR ''.'') body);
          v = int (decimal (ip @ fp))
      in if ip @ fp = [] \<or> \<not> list_all is_digit (ip @ fp) then None
         else Some ((if neg then - v else v) * 100 < 116 * 10 ^ length fp))"

definition sample_number :: "int json \<Rightarrow> int" where
  "sample_number v =
     (case v of JInt n \<Rightarrow> n | JFloat x \<Rightarrow> x | JBool b \<Rightarrow> (if b then 1 else 0) | _ \<Rightarrow> 0)"

definition sample_python :: "int python" where
  "sample_python =
     \<lparr>json_loads = (\<lambda>s. if s = ''{}'' then Inr (JObject []) else Inl JSONDecodeError),
      unpack_float = le_signed,
      urlparse = sample_urlparse,
      parse_qsl = sample_parse_qsl,
      repr = (\<lambda>v. case v of JNull \<Rightarrow> ''None''
                    | JBool b \<Rightarrow> (if b then ''True'' else ''False'')
                    | _ \<Rightarrow> ''?''),
      float_below_1_16 = sample_float_below_1_16,
      float_add_one = (\<lambda>x. 1 + x),
      exceeds_tolerance = (\<lambda>l r tol. tol < \<bar>sample_number l - sample_number r\<bar>)\<rparr>"

section \<open>Example documents\<close>

text \<open>
  Two accessors over a payload of five bytes: two pairs of unsigned bytes read from
  offset 1, and a placeholder without a buffer view.
\<close>

definition acc_vec2 :: "int json" where
  "acc_vec2 = JObject [(''type'', JString ''VEC2''), (''bufferView'', JInt 0),
                       (''count'', JInt 2), (''componentType'', JInt 5121)]"

definition acc_placeholder :: "int json" where
  "acc_placeholder = JObject [(''type'', JString ''SCALAR''), (''count'', JInt 7)]"

definition views_one :: "int json" where
  "views_one = JArray [JObject [(''byteOffset'', JInt 1)]]"

definition doc_two :: "int json" where
  "doc_two = JObject [(''bufferViews'', views_one),
                      (''accessors'', JArray [acc_vec2, acc_placeholder])]"

definition doc_one :: "int json" where
  "doc_one = JObject [(''bufferViews'', views_one), (''accessors'', JArray [acc_vec2])]"

definition payload_five :: string where
  "payload_five = map char_of [9, 1, 2, 3, 4 :: nat]"

definition decoded_vec2 :: "int json" where
  "decoded_vec2 = JArray [JArray [JInt 1, JInt 2], JArray [JInt 3, JInt 4]]"

text \<open>A placeholder whose type tag is unknown; a count below zero; a payload too short.\<close>

definition acc_mat3 :: "int json" where
  "acc_mat3 = JObject [(''type'', JString ''MAT3''), (''count'', JInt 1)]"

definition doc_mat3 :: "int json" where
  "doc_mat3 = JObject [(''bufferViews'', JArray []), (''accessors'', JArray [acc_mat3])]"



section \<open>Properties of the accessor decoder\<close>

lemma read_binary_data:
  "read_binary br n = Inr (bs, br') \<Longrightarrow> data br' = data br"
  by (auto simp: read_binary_def split: if_splits)

lemma read_as_data_type_scalar:
  "read_as_data_type py br ct = Inr (v, br') \<Longrightarrow> elem_count v = 1 \<and> data br' = data br"
  by (auto simp: read_as_data_type_def read_signed_def read_unsigned_def elem_count_def
      dest: read_binary_data split: json.splits if_splits sum.splits)

lemma read_components_length:
  "read_components py br a n acc = Inr (d, br') \<Longrightarrow>
     length d = length acc + n \<and> data br' = data br"
proof (induction n arbitrary: br acc)
  case 0
  then show ?case by simp
next
  case (Suc n)
  then show ?case
    by (fastforce split: sum.splits dest: read_as_data_type_scalar)
qed

lemma read_elements_count:
  "read_elements py br a k n dl = Inr (out, br') \<Longrightarrow>
     length out = length dl + n \<and>
     sum_list (map elem_count out) = sum_list (map elem_count dl) + n * k \<and>
     data br' = data br"
proof (induction n arbitrary: br dl)
  case 0
  then show ?case by simp
next
  case (Suc n)
  show ?case
  proof (cases "k = 1")
    case True
    with Suc.prems obtain ct v br1 where
      rd: "read_as_data_type py br ct = Inr (v, br1)"
      and rest: "read_elements py br1 a k n (dl @ [v]) = Inr (out, br')"
      by (auto split: sum.splits)
    from Suc.IH [OF rest] read_as_data_type_scalar [OF rd] True
    show ?thesis by simp
  next
    case False
    with Suc.prems obtain d br1 where
      rd: "read_components py br a k [] = Inr (d, br1)"
      and rest: "read_elements py br1 a k n (dl @ [JArray d]) = Inr (out, br')"
      by (auto split: sum.splits)
    from Suc.IH [OF rest] read_components_length [OF rd]
    show ?thesis by (simp add: elem_count_def)
  qed
qed


lemma set_pos_indep:
  "data br = data br' \<Longrightarrow> set_pos br v = Inr b \<Longrightarrow> set_pos br' v = Inr b"
  by (auto simp: set_pos_def split: option.splits)

lemma set_pos_data: "set_pos br v = Inr b \<Longrightarrow> data b = data br"
  by (auto simp: set_pos_def split: option.splits)

lemma set_pos_err:
  "set_pos br v = Inl e \<Longrightarrow> set_pos br' v = Inl e"
  by (auto simp: set_pos_def split: option.splits)

lemma decode_accessor_data:
  "decode_accessor py br bvs a = Inr (arr, br') \<Longrightarrow> data br' = data br"
  by (auto simp: decode_accessor_def split: sum.splits if_splits
      dest!: read_elements_count set_pos_data)

lemma decode_accessor_indep:
  assumes "data br = data br'"
  shows "map_sum id fst (decode_accessor py br bvs a) =
         map_sum id fst (decode_accessor py br' bvs a)"
proof (cases "set_pos br
    (case py_getitem_str a ''bufferView'' of Inr bv \<Rightarrow>
       (case py_getitem bvs bv of Inr view \<Rightarrow>
          (case py_getitem_str view ''byteOffset'' of Inr off \<Rightarrow> off | _ \<Rightarrow> JNull)
        | _ \<Rightarrow> JNull)
     | _ \<Rightarrow> JNull)")
  case (Inl e)
  from set_pos_err [OF this, of br'] Inl show ?thesis
    by (auto simp: decode_accessor_def split: sum.splits)
next
  case (Inr b)
  from set_pos_indep [OF assms this] Inr show ?thesis
    by (auto simp: decode_accessor_def split: sum.splits)
qed

lemma decode_accessors_indep:
  "data br = data br' \<Longrightarrow>
   decode_accessors py br bvs accs acc = decode_accessors py br' bvs accs acc"
proof (induction accs arbitrary: br br' acc)
  case Nil
  show ?case by simp
next
  case (Cons a accs)
  from decode_accessor_indep [OF Cons.prems, of py bvs a]
  show ?case
  proof (cases "decode_accessor py br bvs a")
    case (Inl e)
    with \<open>map_sum id fst (decode_accessor py br bvs a) = map_sum id fst (decode_accessor py br' bvs a)\<close>
    show ?thesis by (cases "decode_accessor py br' bvs a") auto
  next
    case (Inr r)
    obtain arr b1 where r: "r = (arr, b1)" by (cases r)
    with Inr \<open>map_sum id fst (decode_accessor py br bvs a) = map_sum id fst (decode_accessor py br' bvs a)\<close>
    obtain b2 where r2: "decode_accessor py br' bvs a = Inr (arr, b2)"
      by (cases "decode_accessor py br' bvs a") auto
    from decode_accessor_data Inr r have "data b1 = data br" by blast
    moreover from decode_accessor_data r2 have "data b2 = data br'" by blast
    ultimately have "data b1 = data b2" using Cons.prems by simp
    from Cons.IH [OF this] Inr r r2 show ?thesis by simp
  qed
qed

lemma decode_accessors_acc:
  "decode_accessors py br bvs accs acc =
     (case decode_accessors py br bvs accs [] of
        Inl e \<Rightarrow> Inl e
      | Inr out \<Rightarrow> Inr (acc @ out))"
proof (induction accs arbitrary: br acc)
  case Nil
  show ?case by simp
next
  case (Cons a accs)
  show ?case
  proof (cases "decode_accessor py br bvs a")
    case (Inl e)
    then show ?thesis by simp
  next
    case (Inr r)
    obtain arr b1 where r: "r = (arr, b1)" by (cases r)
    from Cons.IH [of b1 "acc @ [arr]"] Cons.IH [of b1 "[arr]"] Inr r
    show ?thesis by (auto split: sum.splits)
  qed
qed

lemma decode_accessors_Cons:
  "decode_accessors py br bvs (a # accs) [] =
     (case decode_one py (data br) bvs a of
        Inl e \<Rightarrow> Inl e
      | Inr arr \<Rightarrow>
          (case decode_accessors py br bvs accs [] of
             Inl e \<Rightarrow> Inl e
           | Inr out \<Rightarrow> Inr (arr # out)))"
proof -
  have d: "data br = data (new_reader (data br))" by (simp add: new_reader_def)
  note i = decode_accessor_indep [OF d, of py bvs a]
  show ?thesis
  proof (cases "decode_accessor py br bvs a")
    case (Inl e)
    with i show ?thesis
      by (cases "decode_accessor py (new_reader (data br)) bvs a") (auto simp: decode_one_def)
  next
    case (Inr r)
    obtain arr b1 where r: "r = (arr, b1)" by (cases r)
    with Inr i obtain b2 where r2: "decode_accessor py (new_reader (data br)) bvs a = Inr (arr, b2)"
      by (cases "decode_accessor py (new_reader (data br)) bvs a") auto
    from decode_accessor_data Inr r have "data b1 = data br" by blast
    then have "decode_accessors py b1 bvs accs [arr] = decode_accessors py br bvs accs [arr]"
      by (rule decode_accessors_indep)
    also have "\<dots> = (case decode_accessors py br bvs accs [] of
        Inl e \<Rightarrow> Inl e | Inr out \<Rightarrow> Inr ([arr] @ out))"
      by (rule decode_accessors_acc)
    finally show ?thesis using Inr r r2
      by (simp add: decode_one_def split: sum.splits)
  qed
qed

lemma decode_accessors_append:
  "decode_accessors py br bvs (xs @ ys) [] =
     (case decode_accessors py br bvs xs [] of
        Inl e \<Rightarrow> Inl e
      | Inr o1 \<Rightarrow>
          (case decode_accessors py br bvs ys [] of
             Inl e \<Rightarrow> Inl e
           | Inr o2 \<Rightarrow> Inr (o1 @ o2)))"
proof (induction xs)
  case Nil
  show ?case by (simp split: sum.splits)
next
  case (Cons a xs)
  show ?case
    by (simp only: append_Cons decode_accessors_Cons Cons.IH) (auto split: sum.splits)
qed

lemma decode_accessors_nth:
  "decode_accessors py br bvs accs [] = Inr out \<Longrightarrow>
     length out = length accs \<and>
     (\<forall>i<length accs. decode_one py (data br) bvs (accs ! i) = Inr (out ! i))"
proof (induction accs arbitrary: out)
  case Nil
  then show ?case by simp
next
  case (Cons a accs)
  from Cons.prems obtain arr rest where
    a: "decode_one py (data br) bvs a = Inr arr"
    and r: "decode_accessors py br bvs accs [] = Inr rest"
    and out: "out = arr # rest"
    by (auto simp only: decode_accessors_Cons split: sum.splits)
  from Cons.IH [OF r] a out show ?case
    by (auto simp: nth_Cons split: nat.splits)
qed



lemma arity_lookup:
  "arity a = Some k \<Longrightarrow>
     \<exists>t. py_getitem_str a ''type'' = Inr t \<and> lookup_type_num t = Inr k"
proof -
  assume k: "arity a = Some k"
  then obtain s where t: "py_getitem_str a ''type'' = Inr (JString s)"
    by (auto simp: arity_def split: sum.splits json.splits)
  with k have "map_of type_num_dict s = Some k" by (simp add: arity_def)
  then have "lookup_type_num (JString s :: 'a json) = Inr k" by (simp add: lookup_type_num_def)
  with t show ?thesis by blast
qed


lemma decode_one_placeholder:
  assumes "arity a = Some k" and "\<not> has_key ''bufferView'' a"
  shows "decode_one py binary bvs a = Inr (JArray [])"
proof -
  from arity_lookup [OF assms(1)] obtain t where
    "py_getitem_str a ''type'' = Inr t" and "lookup_type_num t = Inr k" by blast
  with assms(2) show ?thesis by (simp add: decode_one_def decode_accessor_def)
qed

lemma decode_bin_unfold:
  assumes "py_getitem_str j ''bufferViews'' = Inr bvs"
    and "py_getitem_str j ''accessors'' = Inr (JArray accs)"
  shows "decode_bin py j binary = decode_accessors py (new_reader binary) bvs accs []"
  using assms by (simp add: decode_bin_def py_iter_def)


text \<open>
  C9, as the code has it: an accessor without a buffer view whose type tag is one of
  the five known ones adds an empty array at its own index and nothing else. The
  decoder fails exactly when it fails on the other accessors, with the same error,
  and the arrays of the other accessors are the same.
\<close>

theorem decode_bin_placeholder:
  assumes "py_getitem_str j ''bufferViews'' = Inr bvs"
    and "py_getitem_str j ''accessors'' = Inr (JArray (pre @ a # post))"
    and "py_getitem_str j' ''bufferViews'' = Inr bvs"
    and "py_getitem_str j' ''accessors'' = Inr (JArray (pre @ post))"
    and "arity a = Some k" and "\<not> has_key ''bufferView'' a"
  shows "decode_bin py j binary =
    (case decode_bin py j' binary of
       Inl e \<Rightarrow> Inl e
     | Inr out \<Rightarrow> Inr (take (length pre) out @ JArray [] # drop (length pre) out))"
proof -
  let ?br = "new_reader binary"
  have a: "decode_accessors py ?br bvs (a # post) [] =
      (case decode_accessors py ?br bvs post [] of
         Inl e \<Rightarrow> Inl e | Inr out \<Rightarrow> Inr (JArray [] # out))"
    using decode_one_placeholder [OF assms(5,6)]
    by (simp only: decode_accessors_Cons) simp
  show ?thesis
  proof (cases "decode_accessors py ?br bvs pre []")
    case (Inl e)
    then show ?thesis
      by (simp add: decode_bin_unfold [OF assms(1,2)] decode_bin_unfold [OF assms(3,4)]
          decode_accessors_append del: decode_accessors.simps)
  next
    case (Inr o1)
    from decode_accessors_nth [OF Inr] have "length o1 = length pre" by simp
    with Inr a show ?thesis
      by (simp add: decode_bin_unfold [OF assms(1,2)] decode_bin_unfold [OF assms(3,4)]
          decode_accessors_append del: decode_accessors.simps split: sum.splits)
  qed
qed



theorem decode_bin_placeholder_witness:
  "decode_bin sample_python doc_two payload_five = Inr [decoded_vec2, JArray []] \<and>
   decode_bin sample_python doc_one payload_five = Inr [decoded_vec2]"
proof -
  have j: "py_getitem_str doc_two ''bufferViews'' = Inr views_one"
    "py_getitem_str doc_two ''accessors'' = Inr (JArray ([acc_vec2] @ acc_placeholder # []))"
    by code_simp+
  have j': "py_getitem_str doc_one ''bufferViews'' = Inr views_one"
    "py_getitem_str doc_one ''accessors'' = Inr (JArray ([acc_vec2] @ []))"
    by code_simp+
  have a: "arity acc_placeholder = Some 1" "\<not> has_key ''bufferView'' acc_placeholder"
    by code_simp+
  have one: "decode_bin sample_python doc_one payload_five = Inr [decoded_vec2]"
    by code_simp
  from decode_bin_placeholder [OF j j' a, of sample_python payload_five] one
  show ?thesis by simp
qed

theorem decode_bin_placeholder_counterexample:
  "\<not> has_key ''bufferView'' acc_mat3 \<and>
   decode_bin sample_python doc_mat3 payload_five = Inl KeyError"
  by code_simp

section \<open>Properties of the container demuxer\<close>

lemma le_nat_le32: 
  assumes "n < 2 ^ 32"
  shows "le_nat (le32 n) = n"
proof -
  define a where "a = n div 256"
  define b where "b = a div 256"
  define c where "c = b div 256"
  have c: "c < 256" using assms by (simp add: a_def b_def c_def div_mult2_eq [symmetric])
  have e: "n div 65536 = b" "n div 16777216 = c"
    by (simp_all add: a_def b_def c_def div_mult2_eq [symmetric])
  have "le_nat (le32 n) = n mod 256 + 256 * (a mod 256 + 256 * (b mod 256 + 256 * (c mod 256)))"
    by (simp add: le32_def e a_def [symmetric])
  also have "c mod 256 = c" using c by simp
  also have "b mod 256 + 256 * c = b" by (simp add: c_def)
  also have "a mod 256 + 256 * b = a" by (simp add: b_def)
  also have "n mod 256 + 256 * a = n" by (simp add: a_def)
  finally show ?thesis .
qed

lemma length_le32 [simp]: "length (le32 n) = 4"
  by (simp add: le32_def)

lemma read_binary_at:
  "p + n \<le> length d \<Longrightarrow>
   read_binary \<lparr>data = d, pos = int p\<rparr> n =
     Inr (take n (drop p d), \<lparr>data = d, pos = int (p + n)\<rparr>)"
  by (simp add: read_binary_def)

lemma decode_utf8_JSON: "decode_utf8 ''JSON'' = Inr ''JSON''"
  by code_simp

lemma decode_utf8_BIN: "decode_utf8 BIN = Inr BIN"
  by code_simp

lemma decode_utf8_glTF: "decode_utf8 ''glTF'' = Inr ''glTF''"
  by code_simp

lemma decode_utf8_Nil: "decode_utf8 [] = Inr []"
  by code_simp

lemma BIN_neq_JSON: "BIN \<noteq> ''JSON''" "length BIN = 4" "length ''JSON'' = 4"
  "''JSON'' \<noteq> BIN"
  by (simp_all add: BIN_def)

lemma parse_chunks_step:
  assumes tag: "length tag = 4" "decode_utf8 tag = Inr tag"
    and len: "length payload < 2 ^ 32"
    and sz: "0 < sz"
    and guard: "json_str = None \<or> body = None"
    and d: "d = pre @ chunk tag payload @ post"
  shows "parse_chunks \<lparr>data = d, pos = int (length pre)\<rparr> sz json_str body =
    (if tag = BIN then
       parse_chunks \<lparr>data = d, pos = int (length (pre @ chunk tag payload))\<rparr>
         (sz - 8 - int (length payload)) json_str (Some payload)
     else if tag = ''JSON'' then
       (case decode_utf8 payload of
          Inl e \<Rightarrow> Inl e
        | Inr s \<Rightarrow>
            parse_chunks \<lparr>data = d, pos = int (length (pre @ chunk tag payload))\<rparr>
              (sz - 8 - int (length payload)) (Some s) body)
     else Inl (UnknownChunkType tag))"
proof -
  let ?p = "length pre"
  have b1: "read_binary \<lparr>data = d, pos = int ?p\<rparr> 4 =
      Inr (take 4 (drop ?p d), \<lparr>data = d, pos = int (?p + 4)\<rparr>)"
    by (rule read_binary_at) (simp add: d chunk_def)
  have t1: "take 4 (drop ?p d) = le32 (length payload)"
    by (simp add: d chunk_def)
  have r1: "read_unsigned_int \<lparr>data = d, pos = int ?p\<rparr> =
      Inr (length payload, \<lparr>data = d, pos = int (?p + 4)\<rparr>)"
    unfolding read_unsigned_int_def b1 t1 using le_nat_le32 [OF len] by simp
  have b2: "read_binary \<lparr>data = d, pos = int (?p + 4)\<rparr> 4 =
      Inr (take 4 (drop (?p + 4) d), \<lparr>data = d, pos = int (?p + 4 + 4)\<rparr>)"
    by (rule read_binary_at) (simp add: d chunk_def tag)
  have t2: "take 4 (drop (?p + 4) d) = tag"
    by (simp add: d chunk_def tag)
  have r2: "read_str \<lparr>data = d, pos = int (?p + 4)\<rparr> 4 =
      Inr (tag, \<lparr>data = d, pos = int (?p + 4 + 4)\<rparr>)"
    unfolding read_str_def b2 t2 using tag by simp
  have b3: "read_binary \<lparr>data = d, pos = int (?p + 4 + 4)\<rparr> (length payload) =
      Inr (take (length payload) (drop (?p + 4 + 4) d),
           \<lparr>data = d, pos = int (?p + 4 + 4 + length payload)\<rparr>)"
    by (rule read_binary_at) (simp add: d chunk_def tag)
  have t3: "take (length payload) (drop (?p + 4 + 4) d) = payload"
    by (simp add: d chunk_def tag)
  note r3 = b3 [unfolded t3]
  have l: "int (length (pre @ chunk tag payload)) = int (?p + 4 + 4 + length payload)"
    using tag by (simp add: chunk_def)
  show ?thesis
    apply (subst parse_chunks.simps)
    using sz guard
    apply (simp only: r1 r2 r3 l sum.case prod.case BIN_def [symmetric])
    apply (auto split: sum.splits)
    done
qed


lemma parse_chunks_done: "sz \<le> 0 \<Longrightarrow> parse_chunks r sz json_str body = Inr (json_str, body)"
  by (subst parse_chunks.simps) simp

lemma length_chunk: "length tag = 4 \<Longrightarrow> length (chunk tag payload) = 8 + length payload"
  by (simp add: chunk_def)

lemma length_header [simp]: "length (header n) = 12"
  by (simp add: header_def)

lemma glb_header: "glb cs = header (length (concat cs)) @ concat cs"
  by (simp add: glb_def header_def)

lemma parse_glb_glb:
  assumes "length (glb cs) < 2 ^ 32"
  shows "parse_glb py (glb cs) =
    (case parse_chunks \<lparr>data = glb cs, pos = int (length (header (length (concat cs))))\<rparr>
            (int (length (concat cs))) None None of
       Inl e \<Rightarrow> Inl e
     | Inr (json_str, body) \<Rightarrow> finish_glb py json_str body)"
proof -
  let ?d = "glb cs"
  let ?n = "length (concat cs)"
  from assms have n: "12 + ?n < 2 ^ 32" by (simp add: glb_header)
  have b1: "read_binary \<lparr>data = ?d, pos = int 0\<rparr> 4 =
      Inr (take 4 (drop 0 ?d), \<lparr>data = ?d, pos = int (0 + 4)\<rparr>)"
    by (rule read_binary_at) (simp add: glb_def)
  have r1: "read_str (new_reader ?d) 4 = Inr (''glTF'', \<lparr>data = ?d, pos = 4\<rparr>)"
    using b1 decode_utf8_glTF by (simp add: read_str_def new_reader_def glb_def)
  have b2: "read_binary \<lparr>data = ?d, pos = int 4\<rparr> 4 =
      Inr (take 4 (drop 4 ?d), \<lparr>data = ?d, pos = int (4 + 4)\<rparr>)"
    by (rule read_binary_at) (simp add: glb_def)
  have t2: "take 4 (drop 4 ?d) = le32 2" by (simp add: glb_def)
  have r2: "read_as_data_type py \<lparr>data = ?d, pos = 4\<rparr> (JInt GL_UNSIGNED_INT) =
      Inr (JInt 2, \<lparr>data = ?d, pos = 8\<rparr>)"
    using b2 [unfolded t2] le_nat_le32 [of 2]
    by (simp add: read_as_data_type_def read_unsigned_def)
  have b3: "read_binary \<lparr>data = ?d, pos = int 8\<rparr> 4 =
      Inr (take 4 (drop 8 ?d), \<lparr>data = ?d, pos = int (8 + 4)\<rparr>)"
    by (rule read_binary_at) (simp add: glb_def)
  have t3: "take 4 (drop 8 ?d) = le32 (12 + ?n)" by (simp add: glb_def)
  have r3: "read_as_data_type py \<lparr>data = ?d, pos = 8\<rparr> (JInt GL_UNSIGNED_INT) =
      Inr (JInt (int (12 + ?n)), \<lparr>data = ?d, pos = 12\<rparr>)"
    using b3 [unfolded t3] le_nat_le32 [OF n]
    by (simp add: read_as_data_type_def read_unsigned_def)
  show ?thesis
    by (simp add: parse_glb_def r1 r2 r3 as_int_def)
qed


lemma parse_chunks_walk:
  assumes "list_all wf_chunk cs"
  shows "parse_chunks
       \<lparr>data = pre @ concat (encode_chunks cs) @ post, pos = int (length pre)\<rparr>
       (int (length (concat (encode_chunks cs)))) json_str body =
     walk_chunks cs json_str body"
  using assms
proof (induction cs arbitrary: pre json_str body)
  case Nil
  show ?case by (simp add: encode_chunks_def parse_chunks_done)
next
  case (Cons c cs)
  obtain tag payload where c: "c = (tag, payload)" by (cases c)
  let ?rest = "concat (encode_chunks cs)"
  let ?d = "pre @ concat (encode_chunks (c # cs)) @ post"
  let ?sz = "int (length (concat (encode_chunks (c # cs))))"
  from Cons.prems have wfc: "wf_chunk c" and wfs: "list_all wf_chunk cs"
    by simp_all
  from wfc c have wf: "length tag = 4" "decode_utf8 tag = Inr tag" "length payload < 2 ^ 32"
    by (simp_all add: wf_chunk_def)
  have d: "?d = pre @ chunk tag payload @ (?rest @ post)"
    by (simp add: encode_chunks_def c)
  have sz: "0 < ?sz" by (simp add: encode_chunks_def c length_chunk wf)
  have sz': "?sz - 8 - int (length payload) = int (length ?rest)"
    by (simp add: encode_chunks_def c length_chunk wf)
  have d': "?d = (pre @ chunk tag payload) @ ?rest @ post"
    by (simp add: encode_chunks_def c)
  note ih = Cons.IH [OF wfs, of "pre @ chunk tag payload", folded d']
  show ?case
  proof (cases "json_str \<noteq> None \<and> body \<noteq> None")
    case True
    then show ?thesis using sz
      by (subst parse_chunks.simps) (simp add: c)
  next
    case False
    then have g: "json_str = None \<or> body = None" by blast
    show ?thesis
      unfolding parse_chunks_step [OF wf sz g d] sz' ih
      using g by (auto simp: c split: sum.splits)
  qed
qed

lemma parse_glb_walk:
  assumes "list_all wf_chunk cs" and "length (glb (encode_chunks cs)) < 2 ^ 32"
  shows "parse_glb py (glb (encode_chunks cs)) =
    (case walk_chunks cs None None of
       Inl e \<Rightarrow> Inl e
     | Inr (json_str, body) \<Rightarrow> finish_glb py json_str body)"
proof -
  have "parse_chunks
      \<lparr>data = glb (encode_chunks cs),
         pos = int (length (header (length (concat (encode_chunks cs)))))\<rparr>
      (int (length (concat (encode_chunks cs)))) None None = walk_chunks cs None None"
    using parse_chunks_walk [OF assms(1), of "header (length (concat (encode_chunks cs)))" "[]"]
    by (simp add: glb_header)
  then show ?thesis
    by (simp only: parse_glb_glb [OF assms(2)])
qed

lemma wf_BIN: "wf_chunk (BIN, b) = (length b < 2 ^ 32)"
  by (simp add: wf_chunk_def decode_utf8_BIN BIN_neq_JSON)

lemma wf_JSON: "wf_chunk (''JSON'', b) = (length b < 2 ^ 32)"
  by (simp add: wf_chunk_def decode_utf8_JSON)

lemma walk_bins:
  "walk_chunks (map (Pair BIN) bins @ cs) None body =
     walk_chunks cs None (if bins = [] then body else Some (last bins))"
  by (induction bins arbitrary: body) simp_all


lemma length_bin_le:
  "b \<in> set bins \<Longrightarrow> length b \<le> length (concat (map (chunk BIN) bins))"
  by (induction bins) (auto simp: chunk_def)

lemma encode_bins: "encode_chunks (map (Pair BIN) bins @ cs) = map (chunk BIN) bins @ encode_chunks cs"
  by (simp add: encode_chunks_def)

lemma encode_Cons: "encode_chunks ((t, p) # cs) = chunk t p # encode_chunks cs"
  by (simp add: encode_chunks_def)

lemma encode_Nil: "encode_chunks [] = []"
  by (simp add: encode_chunks_def)

lemma wf_bins:
  assumes "length (concat (map (chunk BIN) bins)) < 2 ^ 32"
  shows "list_all wf_chunk (map (Pair BIN) bins)"
proof -
  have "length b < 2 ^ 32" if "b \<in> set bins" for b
    using length_bin_le [OF that] assms by simp
  then show ?thesis by (simp add: list_all_iff wf_BIN)
qed

text \<open>
  C10: a container whose only JSON chunk is empty fails with the error of a container
  without a JSON chunk, \<open>FailedToReadJsonChunk\<close>: the check after the loop is on the
  decoded text being empty. The containers are those with the empty JSON chunk after
  any binary chunks or before one binary chunk; the containers without a JSON chunk
  are those of binary chunks only. (A chunk that follows after both a JSON chunk and a
  binary chunk have been read stops the loop with \<open>MultipleChunks\<close> before that check.)
\<close>

theorem parse_glb_empty_json_chunk:
  assumes "length (glb (map (chunk BIN) bins @ [chunk ''JSON'' [], chunk BIN b])) < 2 ^ 32"
  shows "parse_glb py (glb (map (chunk BIN) bins @ [chunk ''JSON'' []])) =
           Inl FailedToReadJsonChunk \<and>
         parse_glb py (glb [chunk ''JSON'' [], chunk BIN b]) = Inl FailedToReadJsonChunk \<and>
         parse_glb py (glb (map (chunk BIN) bins)) = Inl FailedToReadJsonChunk"
proof -
  from assms have bound: "length (concat (map (chunk BIN) bins)) < 2 ^ 32" "length b < 2 ^ 32"
    by (simp_all add: glb_def chunk_def)
  note wfb = wf_bins [OF bound(1)]
  let ?c1 = "map (Pair BIN) bins @ [(''JSON'', [])]"
  let ?c2 = "[(''JSON'', []), (BIN, b)]"
  let ?c3 = "map (Pair BIN) bins"
  have e: "encode_chunks ?c1 = map (chunk BIN) bins @ [chunk ''JSON'' []]"
    "encode_chunks ?c2 = [chunk ''JSON'' [], chunk BIN b]"
    "encode_chunks ?c3 = map (chunk BIN) bins"
    using encode_bins [of bins "[]"]
    by (simp_all add: encode_bins encode_Cons encode_Nil)
  have w1: "list_all wf_chunk ?c1" using wfb by (simp add: wf_JSON)
  have w2: "list_all wf_chunk ?c2" using bound by (simp add: wf_JSON wf_BIN)
  have w3: "list_all wf_chunk ?c3" using wfb by simp
  have l1: "length (glb (encode_chunks ?c1)) < 2 ^ 32"
    and l2: "length (glb (encode_chunks ?c2)) < 2 ^ 32"
    and l3: "length (glb (encode_chunks ?c3)) < 2 ^ 32"
    using assms unfolding e by (simp_all add: glb_def chunk_def)
  have "parse_glb py (glb (encode_chunks ?c1)) = Inl FailedToReadJsonChunk"
    unfolding parse_glb_walk [OF w1 l1] walk_bins
    by (simp add: BIN_neq_JSON decode_utf8_Nil finish_glb_def)
  moreover have "parse_glb py (glb (encode_chunks ?c2)) = Inl FailedToReadJsonChunk"
    unfolding parse_glb_walk [OF w2 l2]
    by (simp add: BIN_neq_JSON decode_utf8_Nil finish_glb_def)
  moreover have "parse_glb py (glb (encode_chunks ?c3)) = Inl FailedToReadJsonChunk"
    unfolding parse_glb_walk [OF w3 l3]
    using walk_bins [of bins "[]" None] by (simp add: finish_glb_def)
  ultimately show ?thesis unfolding e by simp
qed

theorem parse_glb_empty_json_chunk_witness:
  "parse_glb sample_python (glb (map (chunk BIN) [''ab''] @ [chunk ''JSON'' []])) =
     Inl FailedToReadJsonChunk \<and>
   parse_glb sample_python (glb [chunk ''JSON'' [], chunk BIN ''c'']) =
     Inl FailedToReadJsonChunk \<and>
   parse_glb sample_python (glb (map (chunk BIN) [''ab''])) = Inl FailedToReadJsonChunk"
proof -
  have "length (glb (map (chunk BIN) [''ab''] @ [chunk ''JSON'' [], chunk BIN ''c''])) < 2 ^ 32"
    by (simp add: glb_def chunk_def BIN_def)
  from parse_glb_empty_json_chunk [OF this] show ?thesis .
qed

text \<open>
  C2 on the code: a second JSON chunk replaces the first and a second binary chunk
  replaces the first, without an error. The guard of the loop only fires on a chunk
  that follows after both a JSON chunk and a binary chunk have been read.
\<close>

theorem parse_glb_duplicate_chunks:
  assumes "decode_utf8 p1 = Inr p1" and "decode_utf8 p2 = Inr p2" and "p2 \<noteq> []"
    and "json_loads py p2 = Inr (JObject kvs)"
    and "length (glb [chunk ''JSON'' p1, chunk ''JSON'' p2]) < 2 ^ 32"
    and "length (glb [chunk BIN b1, chunk BIN b2, chunk ''JSON'' p2]) < 2 ^ 32"
  shows "parse_glb py (glb [chunk ''JSON'' p1, chunk ''JSON'' p2]) = Inr (JObject kvs, []) \<and>
         parse_glb py (glb [chunk BIN b1, chunk BIN b2, chunk ''JSON'' p2]) =
           Inr (JObject kvs, b2)"
proof -
  let ?c1 = "[(''JSON'', p1), (''JSON'', p2)]"
  let ?c2 = "[(BIN, b1), (BIN, b2), (''JSON'', p2)]"
  have e: "encode_chunks ?c1 = [chunk ''JSON'' p1, chunk ''JSON'' p2]"
    "encode_chunks ?c2 = [chunk BIN b1, chunk BIN b2, chunk ''JSON'' p2]"
    by (simp_all add: encode_Cons encode_Nil)
  from assms(5,6) have bound: "length p1 < 2 ^ 32" "length p2 < 2 ^ 32"
    "length b1 < 2 ^ 32" "length b2 < 2 ^ 32"
    by (simp_all add: glb_def chunk_def)
  have w1: "list_all wf_chunk ?c1" and w2: "list_all wf_chunk ?c2"
    using bound by (simp_all add: wf_JSON wf_BIN)
  have l1: "length (glb (encode_chunks ?c1)) < 2 ^ 32"
    and l2: "length (glb (encode_chunks ?c2)) < 2 ^ 32"
    using assms(5,6) unfolding e by simp_all
  have "parse_glb py (glb (encode_chunks ?c1)) = Inr (JObject kvs, [])"
    unfolding parse_glb_walk [OF w1 l1]
    using assms(1-4) by (simp add: BIN_neq_JSON finish_glb_def is_dict_def)
  moreover have "parse_glb py (glb (encode_chunks ?c2)) = Inr (JObject kvs, b2)"
    unfolding parse_glb_walk [OF w2 l2]
    using assms(1-4) by (simp add: BIN_neq_JSON finish_glb_def is_dict_def)
  ultimately show ?thesis unfolding e by simp
qed

theorem parse_glb_duplicate_chunks_witness:
  "parse_glb sample_python (glb [chunk ''JSON'' ''[]'', chunk ''JSON'' ''{}'']) =
     Inr (JObject [], []) \<and>
   parse_glb sample_python (glb [chunk BIN ''a'', chunk BIN ''b'', chunk ''JSON'' ''{}'']) =
     Inr (JObject [], ''b'')"
proof -
  have a: "decode_utf8 ''[]'' = Inr ''[]''" "decode_utf8 ''{}'' = Inr ''{}''" "''{}'' \<noteq> []"
    "json_loads sample_python ''{}'' = Inr (JObject [])"
    by code_simp+
  have b: "length (glb [chunk ''JSON'' ''[]'', chunk ''JSON'' ''{}'']) < 2 ^ 32"
    "length (glb [chunk BIN ''a'', chunk BIN ''b'', chunk ''JSON'' ''{}'']) < 2 ^ 32"
    by (simp_all add: glb_def chunk_def BIN_def)
  from parse_glb_duplicate_chunks [OF a b] show ?thesis .
qed

end
